theory Spec2Isabelle
  imports Main "HOL-Library.Sublist" "HOL-Library.AList" "HOL-Library.Multiset"
begin

section \<open>Python strings\<close>

text \<open>
  A Python \<open>str\<close> is a sequence of code points. The model takes a \<open>char\<close> for one code
  point below 256 (the Latin-1 part of Unicode, closed under \<open>str.lower\<close>), so a
  \<open>string\<close> is a Python string over that alphabet and \<open>length\<close> counts what \<open>len\<close> counts.
\<close>

datatype py_error = IndexError | KeyError | ValueError | AttributeError

text \<open>An exception leaves the rest of the block unrun.\<close>

definition bind_r :: "py_error + 'a \<Rightarrow> ('a \<Rightarrow> py_error + 'b) \<Rightarrow> py_error + 'b" where
  "bind_r m f = (case m of Inl e \<Rightarrow> Inl e | Inr x \<Rightarrow> f x)"

text \<open>\<open>xs[i]\<close> for a literal index \<open>i \<ge> 0\<close>.\<close>

definition getitem :: "'a list \<Rightarrow> nat \<Rightarrow> py_error + 'a" where
  "getitem xs i = (if i < length xs then Inr (xs ! i) else Inl IndexError)"

text \<open>\<open>str.isspace\<close> on one code point below 256.\<close>

definition is_space :: "char \<Rightarrow> bool" where
  "is_space c = (let n = (of_char c :: nat) in
     (9 \<le> n \<and> n \<le> 13) \<or> (28 \<le> n \<and> n \<le> 32) \<or> n = 133 \<or> n = 160)"

text \<open>\<open>s.strip(chars)\<close>, \<open>s.rstrip(chars)\<close> and \<open>s.strip()\<close>.\<close>

definition lstrip_chars :: "char set \<Rightarrow> string \<Rightarrow> string" where
  "lstrip_chars cs s = dropWhile (\<lambda>c. c \<in> cs) s"

definition rstrip_chars :: "char set \<Rightarrow> string \<Rightarrow> string" where
  "rstrip_chars cs s = rev (dropWhile (\<lambda>c. c \<in> cs) (rev s))"

definition strip_chars :: "char set \<Rightarrow> string \<Rightarrow> string" where
  "strip_chars cs s = rstrip_chars cs (lstrip_chars cs s)"

definition strip :: "string \<Rightarrow> string" where
  "strip s = rev (dropWhile is_space (rev (dropWhile is_space s)))"

text \<open>\<open>str.lower\<close>: A-Z and the Latin-1 capitals (all of 192..222 but the times sign).\<close>

definition lower_char :: "char \<Rightarrow> char" where
  "lower_char c = (let n = (of_char c :: nat) in
     if (65 \<le> n \<and> n \<le> 90) \<or> (192 \<le> n \<and> n \<le> 222 \<and> n \<noteq> 215)
     then char_of (n + 32) else c)"

definition lower :: "string \<Rightarrow> string" where
  "lower s = map lower_char s"

text \<open>\<open>s.replace(' ', '')\<close> and \<open>s.replace(' ', '_')\<close>.\<close>

definition remove_spaces :: "string \<Rightarrow> string" where
  "remove_spaces s = filter (\<lambda>c. c \<noteq> CHR '' '') s"

definition spaces_to_underscores :: "string \<Rightarrow> string" where
  "spaces_to_underscores s = map (\<lambda>c. if c = CHR '' '' then CHR ''_'' else c) s"

text \<open>
  \<open>s.split(sep)\<close> for a non-empty separator: the pieces between the non-overlapping
  occurrences of \<open>sep\<close>, found from the left. \<open>acc\<close> holds the current piece, reversed.
  Every call in the source passes a non-empty literal.
\<close>

function split_from :: "string \<Rightarrow> string \<Rightarrow> string \<Rightarrow> string list" where
  "split_from sep acc [] = [rev acc]"
| "split_from sep acc (c # cs) =
     (if prefix sep (c # cs) then rev acc # split_from sep [] (drop (length sep - 1) cs)
      else split_from sep (c # acc) cs)"
  by pat_completeness auto
termination
  by (relation "measure (\<lambda>(sep, acc, s). length s)") auto

definition py_split :: "string \<Rightarrow> string \<Rightarrow> string list" where
  "py_split sep s = split_from sep [] s"

section \<open>Data model\<close>

text \<open>
  A candidate is the dict built by \<open>add_candidate\<close>. A Python set is kept as a list without
  duplicates, and the order of the list stands for the iteration order of the set, which
  Python does not fix. \<open>links\<close> holds titles, then page ids or \<open>None\<close>, so its members are
  \<open>string option\<close>. \<open>popularity\<close> is absent until the export sets it.
\<close>

record candidate =
  cand_id :: "string option"
  inCount :: int
  outCount :: int
  links :: "string option list"
  url :: string
  cand_name :: string
  normalName :: string
  normalWikiTitle :: string
  references :: "string list"
  popularity :: "int option"

record entity =
  name :: string
  link :: string
  wname :: string
  fid :: string
  wid :: string
  candidates :: "candidate list"

text \<open>
  A dict keeps its keys in insertion order: an association list with distinct keys, read
  with \<open>map_of\<close>, written with \<open>AList.update\<close> (a new key goes last, an old one keeps its
  place) and \<open>AList.delete\<close>.
\<close>

type_synonym 'v dict = "(string \<times> 'v) list"

definition keys :: "'v dict \<Rightarrow> string set" where
  "keys d = fst ` set d"

section \<open>Entity Table Builder\<close>

text \<open>\<open>row[2].replace(' ', '').split('(')[0].lower()\<close>\<close>

definition entity_dictname :: "string \<Rightarrow> string" where
  "entity_dictname s = lower (hd (py_split ''('' (remove_spaces s)))"

text \<open>\<open>len(row) > 4 and row[1].split('-')[0] == "B"\<close>\<close>

definition is_mention :: "string list \<Rightarrow> bool" where
  "is_mention row = (length row > 4 \<and> hd (py_split ''-'' (row ! 1)) = ''B'')"

text \<open>The reads \<open>row[2]\<close>, \<open>row[4]\<close>, \<open>row[6]\<close>, \<open>row[3]\<close>, \<open>row[5]\<close>, in the source's order.\<close>

definition make_entity :: "string list \<Rightarrow> py_error + entity" where
  "make_entity row =
     bind_r (getitem row 2) (\<lambda>entity_name.
     bind_r (getitem row 4) (\<lambda>entity_link.
     bind_r (getitem row 6) (\<lambda>entity_fid.
     bind_r (getitem row 3) (\<lambda>entity_wname.
     bind_r (getitem row 5) (\<lambda>entity_wid.
       Inr \<lparr>name = entity_name, link = entity_link, wname = entity_wname,
            fid = entity_fid, wid = entity_wid, candidates = []\<rparr>)))))"

text \<open>The loop over the rows that \<open>csv.reader\<close> yields, with the dict built so far.\<close>

fun extract_entities_rows :: "string list list \<Rightarrow> entity dict \<Rightarrow> py_error + entity dict" where
  "extract_entities_rows [] entities = Inr entities"
| "extract_entities_rows (row # rows) entities =
     (if is_mention row then
        (if entity_dictname (row ! 2) \<notin> keys entities then
           (case make_entity row of
              Inl e \<Rightarrow> Inl e
            | Inr ent \<Rightarrow>
                extract_entities_rows rows (AList.update (entity_dictname (row ! 2)) ent entities))
         else extract_entities_rows rows entities)
      else extract_entities_rows rows entities)"

definition extract_entities :: "string list list \<Rightarrow> py_error + entity dict" where
  "extract_entities rows = extract_entities_rows rows []"

section \<open>Candidate Miner\<close>

text \<open>\<open>s.add(x)\<close> on a set kept as a list.\<close>

definition set_add :: "'a \<Rightarrow> 'a list \<Rightarrow> 'a list" where
  "set_add x xs = (if x \<in> set xs then xs else xs @ [x])"

definition new_candidate :: "string \<Rightarrow> string \<Rightarrow> candidate" where
  "new_candidate entity_key cand =
     \<lparr>cand_id = None, inCount = 0, outCount = 0, links = [],
      url = ''https://nl.wikipedia.org/wiki/'' @ spaces_to_underscores cand,
      cand_name = spaces_to_underscores cand,
      normalName = lower cand,
      normalWikiTitle = spaces_to_underscores (lower cand),
      references = [entity_key],
      popularity = None\<rparr>"

definition add_candidate :: "string \<Rightarrow> string \<Rightarrow> candidate dict \<Rightarrow> candidate dict" where
  "add_candidate entity_key cand all_candidates =
     (if cand \<notin> keys all_candidates
      then AList.update cand (new_candidate entity_key cand) all_candidates
      else AList.map_entry cand
             (\<lambda>c. c\<lparr>references := set_add entity_key (references c)\<rparr>) all_candidates)"

text \<open>
  The pattern \<open>\[\[([^]]*)\]\]\<close> at the head of a text: two opening brackets, the longest
  run of characters other than \<open>]\<close> (the group), two closing brackets. The result is the
  group and the text after the match.
\<close>

fun match_link_at :: "string \<Rightarrow> (string \<times> string) option" where
  "match_link_at (a # b # s) =
     (if a = CHR ''['' \<and> b = CHR ''[''
         \<and> prefix '']]'' (dropWhile (\<lambda>c. c \<noteq> CHR '']'') s)
      then Some (takeWhile (\<lambda>c. c \<noteq> CHR '']'') s,
                 drop 2 (dropWhile (\<lambda>c. c \<noteq> CHR '']'') s))
      else None)"
| "match_link_at s = None"

text \<open>\<open>re.search\<close> of that pattern: group 1 of the leftmost match.\<close>

fun search_link :: "string \<Rightarrow> string option" where
  "search_link [] = None"
| "search_link (c # cs) =
     (case match_link_at (c # cs) of Some (g, r) \<Rightarrow> Some g | None \<Rightarrow> search_link cs)"

text \<open>The three aliases of a link text \<open>g = name_match.group(1)\<close>.\<close>

definition link_name :: "string \<Rightarrow> string" where
  "link_name g = strip (hd (py_split ''|'' g))"

definition link_alias_1 :: "string \<Rightarrow> py_error + string option" where
  "link_alias_1 g =
     (if CHR ''|'' \<in> set g
      then bind_r (getitem (py_split ''|'' g) 1)
             (\<lambda>p. Inr (Some (strip (hd (py_split ''('' p)))))
      else Inr None)"

definition link_alias_2 :: "string \<Rightarrow> string" where
  "link_alias_2 g = strip (hd (py_split ''('' (hd (py_split ''|'' g))))"

text \<open>\<open>alias.lower().replace(' ', '')\<close>\<close>

definition alias_key_of :: "string \<Rightarrow> string" where
  "alias_key_of alias = remove_spaces (lower alias)"

text \<open>
  The candidate of a matching line: the pattern is searched again, and \<open>.group(1)\<close> of no
  match would raise AttributeError.
\<close>

definition line_candidate :: "string \<Rightarrow> py_error + string" where
  "line_candidate line =
     (case search_link line of
        None \<Rightarrow> Inl AttributeError
      | Some g \<Rightarrow> Inr (strip (hd (py_split ''|'' g))))"

text \<open>The loop \<open>for alias in [name, alias_1, alias_2]\<close>, left at the first match.\<close>

fun try_aliases ::
  "string option list \<Rightarrow> string set \<Rightarrow> string \<Rightarrow> candidate dict \<Rightarrow> py_error + candidate dict"
where
  "try_aliases [] entity_names line all_candidates = Inr all_candidates"
| "try_aliases (None # rest) entity_names line all_candidates =
     try_aliases rest entity_names line all_candidates"
| "try_aliases (Some alias # rest) entity_names line all_candidates =
     (if alias \<noteq> [] \<and> alias_key_of alias \<in> entity_names
      then (case line_candidate line of
              Inl e \<Rightarrow> Inl e
            | Inr cand \<Rightarrow> Inr (add_candidate (alias_key_of alias) cand all_candidates))
      else try_aliases rest entity_names line all_candidates)"

text \<open>The body of the \<open>try\<close>, on the stripped line.\<close>

definition try_line :: "string set \<Rightarrow> string \<Rightarrow> candidate dict \<Rightarrow> py_error + candidate dict" where
  "try_line entity_names line all_candidates =
     (case search_link line of
        None \<Rightarrow> Inr all_candidates
      | Some g \<Rightarrow>
          (case link_alias_1 g of
             Inl e \<Rightarrow> Inl e
           | Inr alias_1 \<Rightarrow>
               try_aliases [Some (link_name g), alias_1, Some (link_alias_2 g)]
                 entity_names line all_candidates))"

text \<open>The handler of IndexError: \<open>line.split("[[")[1].split("]]")[0].strip()\<close>.\<close>

definition fallback_line :: "string set \<Rightarrow> string \<Rightarrow> candidate dict \<Rightarrow> candidate dict" where
  "fallback_line entity_names line all_candidates =
     (case getitem (py_split ''[['' line) 1 of
        Inl e \<Rightarrow> all_candidates
      | Inr p \<Rightarrow>
          (let name = strip (hd (py_split '']]'' p)) in
           if alias_key_of name \<in> entity_names
           then add_candidate (alias_key_of name) name all_candidates
           else all_candidates))"

definition extract_candidates_line ::
  "string set \<Rightarrow> string \<Rightarrow> candidate dict \<Rightarrow> py_error + candidate dict" where
  "extract_candidates_line entity_names line all_candidates =
     (case try_line entity_names (strip line) all_candidates of
        Inl IndexError \<Rightarrow> Inr (fallback_line entity_names (strip line) all_candidates)
      | Inl e \<Rightarrow> Inl e
      | Inr res \<Rightarrow> Inr res)"

fun extract_candidates_lines ::
  "string set \<Rightarrow> string list \<Rightarrow> candidate dict \<Rightarrow> py_error + candidate dict" where
  "extract_candidates_lines entity_names [] all_candidates = Inr all_candidates"
| "extract_candidates_lines entity_names (line # rest) all_candidates =
     (case extract_candidates_line entity_names line all_candidates of
        Inl e \<Rightarrow> Inl e
      | Inr res \<Rightarrow> extract_candidates_lines entity_names rest res)"

text \<open>\<open>{key.lower().replace(' ', '') for key in entities.keys()}\<close>\<close>

definition entity_names_of :: "entity dict \<Rightarrow> string set" where
  "entity_names_of entities = alias_key_of ` keys entities"

definition extract_candidates :: "string list \<Rightarrow> entity dict \<Rightarrow> py_error + candidate dict" where
  "extract_candidates data entities =
     extract_candidates_lines (entity_names_of entities) data []"

section \<open>Link-Graph Counter\<close>

text \<open>
  A lazy \<open>.*?\<close> followed by a literal: the shortest run of characters other than the
  newline after which \<open>close\<close> stands. The result is the run and the text after \<open>close\<close>.
\<close>

fun lazy_until :: "string \<Rightarrow> string \<Rightarrow> (string \<times> string) option" where
  "lazy_until close [] = (if prefix close [] then Some ([], []) else None)"
| "lazy_until close (c # cs) =
     (if prefix close (c # cs) then Some ([], drop (length close) (c # cs))
      else if c = CHR 0x0A then None
      else (case lazy_until close cs of
              None \<Rightarrow> None
            | Some (g, r) \<Rightarrow> Some (c # g, r)))"

text \<open>\<open>re.search\<close> of \<open>open(.*?)close\<close>, as in \<open><title>(.*?)</title>\<close>: group 1 of the leftmost match.\<close>

fun search_tag :: "string \<Rightarrow> string \<Rightarrow> string \<Rightarrow> string option" where
  "search_tag opn close [] = None"
| "search_tag opn close (c # cs) =
     (if prefix opn (c # cs)
      then (case lazy_until close (drop (length opn) (c # cs)) of
              Some (g, r) \<Rightarrow> Some g
            | None \<Rightarrow> search_tag opn close cs)
      else search_tag opn close cs)"

lemma lazy_until_length: "lazy_until close s = Some (g, r) \<Longrightarrow> length r \<le> length s"
  by (induction close s arbitrary: g rule: lazy_until.induct)
     (auto split: if_splits option.splits)

text \<open>\<open>re.split(r'<page.*?>', content)\<close>: the texts between the matches of the page tag.\<close>

function split_pages_from :: "string \<Rightarrow> string \<Rightarrow> string list" where
  "split_pages_from acc [] = [rev acc]"
| "split_pages_from acc (c # cs) =
     (if prefix ''<page'' (c # cs)
      then (case lazy_until ''>'' (drop 5 (c # cs)) of
              Some (g, r) \<Rightarrow> rev acc # split_pages_from [] r
            | None \<Rightarrow> split_pages_from (c # acc) cs)
      else split_pages_from (c # acc) cs)"
  by pat_completeness auto
termination
proof (relation "measure (\<lambda>(acc, s). length s)")
  fix acc :: string and c cs x2 x y
  assume "lazy_until ''>'' (drop 5 (c # cs)) = Some x2" and "(x, y) = x2"
  then have "length y \<le> length (drop 5 (c # cs))"
    using lazy_until_length[of "''>''" "drop 5 (c # cs)" x y] by simp
  then show "(([], y), acc, c # cs) \<in> measure (\<lambda>(acc, s). length s)"
    by simp
qed auto

text \<open>\<open>[page for page in pages if page.strip() != '']\<close>\<close>

definition pages_of :: "string \<Rightarrow> string list" where
  "pages_of content = filter (\<lambda>page. strip page \<noteq> []) (split_pages_from [] content)"

lemma match_link_at_Some:
  assumes "match_link_at s = Some (g, r)"
  shows "s = ''[['' @ g @ '']]'' @ r \<and> CHR '']'' \<notin> set g"
proof -
  from assms obtain a b s' where s: "s = a # b # s'"
    by (cases s rule: match_link_at.cases) auto
  let ?t = "takeWhile (\<lambda>c. c \<noteq> CHR '']'') s'" and ?d = "dropWhile (\<lambda>c. c \<noteq> CHR '']'') s'"
  from assms s have ab: "a = CHR ''[''" "b = CHR ''[''" and pre: "prefix '']]'' ?d"
    and g: "g = ?t" and r: "r = drop 2 ?d"
    by (auto split: if_splits)
  from pre have "?d = '']]'' @ r" unfolding r by (auto simp: prefix_def)
  then have "s' = g @ '']]'' @ r" using takeWhile_dropWhile_id[of "\<lambda>c. c \<noteq> CHR '']''" s'] g
    by simp
  moreover have "CHR '']'' \<notin> set g" unfolding g by (auto dest: set_takeWhileD)
  ultimately show ?thesis using s ab by simp
qed

text \<open>\<open>re.findall\<close> of the link pattern: group 1 of every match, the search going on after each.\<close>

function findall_links :: "string \<Rightarrow> string list" where
  "findall_links [] = []"
| "findall_links (c # cs) =
     (case match_link_at (c # cs) of
        Some (g, r) \<Rightarrow> g # findall_links r
      | None \<Rightarrow> findall_links cs)"
  by pat_completeness auto
termination
proof (relation "measure length")
  fix c cs x2 x y
  assume "match_link_at (c # cs) = Some x2" and "(x, y) = x2"
  then have "c # cs = ''[['' @ x @ '']]'' @ y"
    using match_link_at_Some[of "c # cs" x y] by simp
  then have "length (c # cs) = length (''[['' @ x @ '']]'' @ y)" by (rule arg_cong)
  then show "(y, c # cs) \<in> measure length" by simp
qed auto

text \<open>\<open>re.search(r'^(Categorie|Gebruiker|Bestand):', link)\<close>\<close>

definition is_namespace_link :: "string \<Rightarrow> bool" where
  "is_namespace_link lnk =
     (prefix ''Categorie:'' lnk \<or> prefix ''Gebruiker:'' lnk \<or> prefix ''Bestand:'' lnk)"

definition page_title :: "string \<Rightarrow> string option" where
  "page_title page = search_tag ''<title>'' ''</title>'' page"

definition page_id :: "string \<Rightarrow> string option" where
  "page_id page = search_tag ''<id>'' ''</id>'' page"

definition page_links :: "string \<Rightarrow> string list" where
  "page_links page = filter (\<lambda>lnk. \<not> is_namespace_link lnk) (findall_links page)"

text \<open>\<open>link.split('|')[0]\<close>\<close>

definition link_target :: "string \<Rightarrow> string" where
  "link_target lnk = hd (py_split ''|'' lnk)"

text \<open>The loop \<open>for link in links\<close> on the page \<open>title\<close>, a key of the map.\<close>

fun count_links :: "string \<Rightarrow> string list \<Rightarrow> candidate dict \<Rightarrow> candidate dict" where
  "count_links title [] all_candidates = all_candidates"
| "count_links title (lnk # rest) all_candidates =
     (if link_target lnk \<in> keys all_candidates
      then count_links title rest
             (AList.map_entry title
                (\<lambda>c. c\<lparr>links := set_add (Some (link_target lnk)) (links c)\<rparr>)
             (AList.map_entry title (\<lambda>c. c\<lparr>outCount := outCount c + 1\<rparr>)
             (AList.map_entry (link_target lnk) (\<lambda>c. c\<lparr>inCount := inCount c + 1\<rparr>)
                all_candidates)))
      else count_links title rest all_candidates)"

text \<open>The body of \<open>for page in pages\<close>. An empty title or id is falsy, as \<open>None\<close> is.\<close>

definition count_page :: "string \<Rightarrow> candidate dict \<Rightarrow> candidate dict" where
  "count_page page all_candidates =
     (case page_title page of
        None \<Rightarrow> all_candidates
      | Some title \<Rightarrow>
          if title \<noteq> [] \<and> title \<in> keys all_candidates
          then count_links title (page_links page)
                 (case page_id page of
                    None \<Rightarrow> all_candidates
                  | Some i \<Rightarrow>
                      if i \<noteq> []
                      then AList.map_entry title (\<lambda>c. c\<lparr>cand_id := Some i\<rparr>) all_candidates
                      else all_candidates)
          else all_candidates)"

text \<open>
  The loop over the files of the directory, in the order \<open>os.listdir\<close> gives them; a file
  is its content.
\<close>

definition count_file :: "string \<Rightarrow> candidate dict \<Rightarrow> candidate dict" where
  "count_file content all_candidates = fold count_page (pages_of content) all_candidates"

definition extract_candidates_counts :: "string list \<Rightarrow> candidate dict \<Rightarrow> candidate dict" where
  "extract_candidates_counts files all_candidates = fold count_file files all_candidates"

section \<open>Redirect Resolver\<close>

text \<open>\<open>s.remove(x)\<close> raises KeyError when \<open>x\<close> is not in the set.\<close>

definition set_remove :: "'a \<Rightarrow> 'a list \<Rightarrow> py_error + 'a list" where
  "set_remove x xs = (if x \<in> set xs then Inr (removeAll x xs) else Inl KeyError)"

text \<open>\<open>not x\<close> for an id: \<open>None\<close> and the empty string are falsy.\<close>

definition falsy :: "string option \<Rightarrow> bool" where
  "falsy x = (case x of None \<Rightarrow> True | Some s \<Rightarrow> s = [])"

text \<open>\<open>all_candidates[link]\<close> under \<open>link in all_candidates\<close>; \<open>None\<close> is no key.\<close>

definition lookup_link :: "candidate dict \<Rightarrow> string option \<Rightarrow> candidate option" where
  "lookup_link d lnk = (case lnk of None \<Rightarrow> None | Some l \<Rightarrow> map_of d l)"

text \<open>
  The loop \<open>for link in list(all_candidates[candidate]['links'])\<close> over the snapshot of the
  links of one candidate.
\<close>

fun replace_candidate_links ::
  "string \<Rightarrow> string option list \<Rightarrow> candidate dict \<Rightarrow> py_error + candidate dict" where
  "replace_candidate_links cand [] d = Inr d"
| "replace_candidate_links cand (lnk # rest) d =
     (case map_of d cand of
        None \<Rightarrow> Inl KeyError
      | Some c \<Rightarrow>
          (case lookup_link d lnk of
             Some target \<Rightarrow>
               bind_r (set_remove lnk (links c)) (\<lambda>ls.
                 replace_candidate_links cand rest
                   (AList.map_entry cand (\<lambda>c. c\<lparr>links := set_add (cand_id target) ls\<rparr>) d))
           | None \<Rightarrow>
               bind_r (set_remove lnk (links c)) (\<lambda>ls.
                 replace_candidate_links cand rest
                   (AList.map_entry cand (\<lambda>c. c\<lparr>links := ls\<rparr>) d))))"

text \<open>The loop \<open>for candidate in list(all_candidates.keys())\<close> over the snapshot of the keys.\<close>

fun replace_links_loop :: "string list \<Rightarrow> candidate dict \<Rightarrow> py_error + candidate dict" where
  "replace_links_loop [] d = Inr d"
| "replace_links_loop (cand # rest) d =
     (case map_of d cand of
        None \<Rightarrow> Inl KeyError
      | Some c \<Rightarrow>
          if falsy (cand_id c) then replace_links_loop rest (AList.delete cand d)
          else bind_r (replace_candidate_links cand (links c) d) (replace_links_loop rest))"

definition replace_links :: "candidate dict \<Rightarrow> py_error + candidate dict" where
  "replace_links all_candidates = replace_links_loop (map fst all_candidates) all_candidates"

section \<open>Attaching the candidates and the document splits\<close>

text \<open>\<open>for ref in references: if ref in entities: entities[ref]['candidates'].append(...)\<close>\<close>

fun attach_candidate :: "candidate \<Rightarrow> string list \<Rightarrow> entity dict \<Rightarrow> entity dict" where
  "attach_candidate c [] entities = entities"
| "attach_candidate c (ref # refs) entities =
     attach_candidate c refs
       (if ref \<in> keys entities
        then AList.map_entry ref (\<lambda>e. e\<lparr>candidates := candidates e @ [c]\<rparr>) entities
        else entities)"

definition add_candidates_to_entities :: "entity dict \<Rightarrow> candidate dict \<Rightarrow> entity dict" where
  "add_candidates_to_entities entities all_candidates =
     fold (\<lambda>(k, c). attach_candidate c (references c)) all_candidates entities"

text \<open>
  \<open>split_tsv_file\<close>: the state of the loop is \<open>docs\<close>, \<open>doc_ents\<close> and \<open>first_doc\<close>.
\<close>

fun split_rows :: "string list list \<Rightarrow> string list list \<Rightarrow> string list \<Rightarrow> bool \<Rightarrow> string list list" where
  "split_rows [] docs doc_ents first_doc = (if doc_ents \<noteq> [] then docs @ [doc_ents] else docs)"
| "split_rows (row # rows) docs doc_ents first_doc =
     (if ''-DOCSTART-'' \<in> set row
      then (if first_doc then split_rows rows docs doc_ents False
            else split_rows rows (docs @ [doc_ents]) [] first_doc)
      else if length row > 0 \<and> is_mention row
      then split_rows rows docs (doc_ents @ [entity_dictname (row ! 2)]) first_doc
      else split_rows rows docs doc_ents first_doc)"

definition split_tsv_file :: "string list list \<Rightarrow> string list list" where
  "split_tsv_file rows = split_rows rows [] [] True"

section \<open>Exporter\<close>

text \<open>\<open>str(n)\<close> of an integer.\<close>

function digits_of :: "nat \<Rightarrow> string" where
  "digits_of n = (if n < 10 then [char_of (48 + n)]
                  else digits_of (n div 10) @ [char_of (48 + n mod 10)])"
  by pat_completeness auto
termination
  by (relation "measure (\<lambda>n. n)") auto

definition str_int :: "int \<Rightarrow> string" where
  "str_int i = (if i < 0 then CHR ''-'' # digits_of (nat (- i)) else digits_of (nat i))"

text \<open>
  \<open>repr\<close> of a string: single quotes, or double quotes when the string has a single quote
  and no double quote; the backslash, the quote, tab, newline and carriage return escaped,
  the non-printable code points written as \<open>\xNN\<close>.
\<close>

definition hex_digit :: "nat \<Rightarrow> char" where
  "hex_digit n = ''0123456789abcdef'' ! (n mod 16)"

definition repr_char :: "char \<Rightarrow> char \<Rightarrow> string" where
  "repr_char q c = (let n = (of_char c :: nat) in
     if c = CHR 0x5C then [CHR 0x5C, CHR 0x5C]
     else if c = q then [CHR 0x5C, q]
     else if n = 9 then [CHR 0x5C, CHR ''t'']
     else if n = 10 then [CHR 0x5C, CHR ''n'']
     else if n = 13 then [CHR 0x5C, CHR ''r'']
     else if n < 32 \<or> n = 127 \<or> (128 \<le> n \<and> n \<le> 160) \<or> n = 173
     then [CHR 0x5C, CHR ''x'', hex_digit (n div 16), hex_digit n]
     else [c])"

definition repr_str :: "string \<Rightarrow> string" where
  "repr_str s = (let q = (if CHR 0x27 \<in> set s \<and> CHR 0x22 \<notin> set s then CHR 0x22 else CHR 0x27)
     in [q] @ concat (map (repr_char q) s) @ [q])"

text \<open>\<open>str(x)\<close> and \<open>repr(x)\<close> of an id or link, a string or \<open>None\<close>.\<close>

definition str_opt :: "string option \<Rightarrow> string" where
  "str_opt x = (case x of None \<Rightarrow> ''None'' | Some s \<Rightarrow> s)"

definition repr_opt :: "string option \<Rightarrow> string" where
  "repr_opt x = (case x of None \<Rightarrow> ''None'' | Some s \<Rightarrow> repr_str s)"

text \<open>\<open>', '.join(xs)\<close>\<close>

fun join_comma :: "string list \<Rightarrow> string" where
  "join_comma [] = []"
| "join_comma [x] = x"
| "join_comma (x # y # ys) = x @ '', '' @ join_comma (y # ys)"

text \<open>\<open>str\<close> of a set: \<open>set()\<close> when empty, the members' \<open>repr\<close> in braces otherwise.\<close>

definition str_set :: "string option list \<Rightarrow> string" where
  "str_set xs = (if xs = [] then ''set()'' else ''{'' @ join_comma (map repr_opt xs) @ ''}'')"

definition tab :: string where
  "tab = [CHR 0x09]"

definition entity_line :: "entity \<Rightarrow> string" where
  "entity_line e = ''ENTITY'' @ tab @ ''text:'' @ name e @ tab @ ''url:'' @ link e
     @ tab @ ''wname:'' @ wname e @ tab @ ''id:'' @ wid e @ tab @ ''freebaseId:'' @ fid e"

definition candidate_line :: "candidate \<Rightarrow> string" where
  "candidate_line c = ''CANDIDATE'' @ tab @ ''id:'' @ str_opt (cand_id c)
     @ tab @ ''name:'' @ cand_name c
     @ tab @ ''inCount:'' @ str_int (inCount c)
     @ tab @ ''outCount:'' @ str_int (outCount c)
     @ tab @ ''links:'' @ str_set (links c)
     @ tab @ ''url:'' @ url c
     @ tab @ ''normalName:'' @ normalName c
     @ tab @ ''normalwikititle:'' @ normalWikiTitle c"

text \<open>\<open>candidate['popularity'] = int(candidate['inCount']) + int(candidate['outCount'])\<close>\<close>

definition with_popularity :: "candidate \<Rightarrow> candidate" where
  "with_popularity c = c\<lparr>popularity := Some (inCount c + outCount c)\<rparr>"

text \<open>The sort key \<open>c['popularity']\<close>, set on every candidate just before.\<close>

definition popularity_key :: "candidate \<Rightarrow> int" where
  "popularity_key c = (case popularity c of Some p \<Rightarrow> p | None \<Rightarrow> 0)"

text \<open>
  \<open>sorted(xs, key=key, reverse=True)\<close>: Python's sort is stable, and with \<open>reverse=True\<close>
  elements with equal keys still keep their order; this is the stable insertion sort on
  the negated key.
\<close>

definition sorted_reverse :: "('a \<Rightarrow> int) \<Rightarrow> 'a list \<Rightarrow> 'a list" where
  "sorted_reverse key xs = sort_key (\<lambda>x. - key x) xs"

definition top_candidates :: "entity \<Rightarrow> candidate list" where
  "top_candidates e = take 20 (sorted_reverse popularity_key (map with_popularity (candidates e)))"

text \<open>
  What the export writes for one entity of a split, one string per \<open>outfile.write\<close>. The
  candidate dicts are shared between the entities that refer to them; the only field the
  export writes to is \<open>popularity\<close>, set again to the same value for each entity.
\<close>

definition export_entity :: "entity dict \<Rightarrow> string \<Rightarrow> py_error + string list" where
  "export_entity entities ent =
     (case map_of entities ent of
        None \<Rightarrow> Inl KeyError
      | Some e \<Rightarrow> Inr (entity_line e # map candidate_line (top_candidates e)))"

fun export_data :: "string list \<Rightarrow> entity dict \<Rightarrow> py_error + string list" where
  "export_data [] entities = Inr []"
| "export_data (ent # split) entities =
     bind_r (export_entity entities ent) (\<lambda>block.
     bind_r (export_data split entities) (\<lambda>rest. Inr (block @ rest)))"

section \<open>The whole run\<close>

text \<open>
  \<open>main\<close>, from the rows of the annotated corpus, the lines of the link corpus and the
  contents of the dump shards to the records written to each split file.
\<close>

fun export_splits :: "string list list \<Rightarrow> entity dict \<Rightarrow> py_error + string list list" where
  "export_splits [] entities = Inr []"
| "export_splits (split # splits) entities =
     bind_r (export_data split entities) (\<lambda>out.
     bind_r (export_splits splits entities) (\<lambda>outs. Inr (out # outs)))"

definition main :: "string list list \<Rightarrow> string list \<Rightarrow> string list \<Rightarrow> py_error + string list list" where
  "main rows data files =
     bind_r (extract_entities rows) (\<lambda>entities.
     bind_r (extract_candidates data entities) (\<lambda>mined.
     bind_r (replace_links (extract_candidates_counts files mined)) (\<lambda>all_candidates.
       export_splits (split_tsv_file rows)
         (add_candidates_to_entities entities all_candidates))))"

section \<open>The companion reader of candidate lines\<close>

record parsed_candidate =
  p_id :: string
  p_in_count :: int
  p_out_count :: int
  p_links :: "string list"
  p_url :: string
  p_name :: string
  p_normal_name :: string
  p_normal_wiki_title :: string

text \<open>\<open>item.partition(':')\<close>: the text before the first colon and the text after it.\<close>

definition partition_colon :: "string \<Rightarrow> string \<times> string" where
  "partition_colon item =
     (takeWhile (\<lambda>c. c \<noteq> CHR '':'') item, drop 1 (dropWhile (\<lambda>c. c \<noteq> CHR '':'') item))"

text \<open>
  \<open>int(value)\<close>: an optional sign and decimal digits, single underscores between digits
  allowed, whitespace around ignored; ValueError otherwise.
\<close>

definition is_digit :: "char \<Rightarrow> bool" where
  "is_digit c = (let n = (of_char c :: nat) in 48 \<le> n \<and> n \<le> 57)"

fun digits_ok :: "string \<Rightarrow> bool" where
  "digits_ok [] = False"
| "digits_ok [c] = is_digit c"
| "digits_ok (c # d # s) =
     (is_digit c \<and> (if d = CHR ''_'' then digits_ok s else digits_ok (d # s)))"

definition digits_value :: "string \<Rightarrow> int" where
  "digits_value s = foldl (\<lambda>acc c. 10 * acc + (of_char c - 48)) 0 (filter is_digit s)"

definition py_int :: "string \<Rightarrow> py_error + int" where
  "py_int value = (let s = strip value in
     case s of
       [] \<Rightarrow> Inl ValueError
     | c # cs \<Rightarrow>
         if c = CHR ''-'' then (if digits_ok cs then Inr (- digits_value cs) else Inl ValueError)
         else if c = CHR ''+'' then (if digits_ok cs then Inr (digits_value cs) else Inl ValueError)
         else (if digits_ok s then Inr (digits_value s) else Inl ValueError))"

text \<open>The \<open>links\<close> branch of the reader.\<close>

definition parse_links :: "string \<Rightarrow> string list" where
  "parse_links value = (let v = strip_chars {CHR ''{'', CHR ''}'', CHR '' ''} value in
     if v \<noteq> []
     then map (strip_chars {CHR '' '', CHR 0x27}) (filter (\<lambda>x. strip x \<noteq> []) (py_split '','' v))
     else [])"

text \<open>One round of the loop \<open>for item in candidate_line.split('\t')\<close>.\<close>

definition parse_item :: "string \<Rightarrow> parsed_candidate \<Rightarrow> py_error + parsed_candidate" where
  "parse_item item self =
     (if item = ''CANDIDATE'' \<or> strip item = [] then Inr self
      else (let key = lower (strip (fst (partition_colon item)));
                value = strip (snd (partition_colon item)) in
        if key = ''id'' then Inr (self\<lparr>p_id := value\<rparr>)
        else if key = ''incount''
        then bind_r (py_int value) (\<lambda>n. Inr (self\<lparr>p_in_count := n\<rparr>))
        else if key = ''outcount''
        then bind_r (py_int value) (\<lambda>n. Inr (self\<lparr>p_out_count := n\<rparr>))
        else if key = ''links'' then Inr (self\<lparr>p_links := parse_links value\<rparr>)
        else if key = ''url'' then Inr (self\<lparr>p_url := value\<rparr>)
        else if key = ''name'' then Inr (self\<lparr>p_name := value\<rparr>)
        else if key = ''normalname'' then Inr (self\<lparr>p_normal_name := value\<rparr>)
        else if key = ''normalwikititle''
        then Inr (self\<lparr>p_normal_wiki_title := rstrip_chars {CHR '')''} value\<rparr>)
        else Inr self))"

fun parse_items :: "string list \<Rightarrow> parsed_candidate \<Rightarrow> py_error + parsed_candidate" where
  "parse_items [] self = Inr self"
| "parse_items (item # items) self = bind_r (parse_item item self) (parse_items items)"

text \<open>\<open>Candidate.__init__\<close>\<close>

definition Candidate_init :: "string \<Rightarrow> py_error + parsed_candidate" where
  "Candidate_init line =
     parse_items (py_split tab line)
       \<lparr>p_id = [], p_in_count = 0, p_out_count = 0, p_links = [], p_url = [], p_name = [],
        p_normal_name = [], p_normal_wiki_title = []\<rparr>"

section \<open>Properties of the string operations and of dicts\<close>

lemma split_from_nonempty: "split_from sep acc s \<noteq> []"
  by (induction sep acc s rule: split_from.induct) auto

lemma hd_split_from_char:
  "hd (split_from [d] acc s) = rev acc @ takeWhile (\<lambda>c. c \<noteq> d) s"
  by (induction "[d]" acc s rule: split_from.induct) auto

lemma hd_py_split_char: "hd (py_split [d] s) = takeWhile (\<lambda>c. c \<noteq> d) s"
  by (simp add: py_split_def hd_split_from_char)

lemma in_keys_iff: "k \<in> keys d \<longleftrightarrow> map_of d k \<noteq> None"
  by (simp add: keys_def map_of_eq_None_iff)

lemma keys_update: "keys (AList.update k v d) = insert k (keys d)"
  by (simp add: keys_def AList.dom_update)

section \<open>Properties of the Candidate Miner\<close>

text \<open>
  The aliases of a link text in the spec's words: the text before the first \<open>|\<close>, the text
  after it (up to a second \<open>|\<close>) cut at the first \<open>(\<close>, and the text before it cut at the
  first \<open>(\<close>, each with the surrounding whitespace removed, in this order. An alias matches
  when it is not empty and its normalization is an entity name.
\<close>

definition before_pipe :: "string \<Rightarrow> string" where
  "before_pipe g = takeWhile (\<lambda>c. c \<noteq> CHR ''|'') g"

definition after_pipe :: "string \<Rightarrow> string" where
  "after_pipe g = takeWhile (\<lambda>c. c \<noteq> CHR ''|'') (tl (dropWhile (\<lambda>c. c \<noteq> CHR ''|'') g))"

definition strip_parenthetical :: "string \<Rightarrow> string" where
  "strip_parenthetical s = strip (takeWhile (\<lambda>c. c \<noteq> CHR ''('') s)"

definition aliases :: "string \<Rightarrow> string list" where
  "aliases g = strip (before_pipe g)
     # (if CHR ''|'' \<in> set g then [strip_parenthetical (after_pipe g)] else [])
     @ [strip_parenthetical (before_pipe g)]"

definition matches :: "string set \<Rightarrow> string \<Rightarrow> bool" where
  "matches entity_names a = (a \<noteq> [] \<and> alias_key_of a \<in> entity_names)"

lemma split_from_char_second:
  "d \<in> set s \<Longrightarrow> 1 < length (split_from [d] acc s) \<and>
     split_from [d] acc s ! 1 = takeWhile (\<lambda>c. c \<noteq> d) (tl (dropWhile (\<lambda>c. c \<noteq> d) s))"
proof (induction "[d]" acc s rule: split_from.induct)
  case (1 acc)
  then show ?case by simp
next
  case (2 acc c cs)
  show ?case
  proof (cases "c = d")
    case True
    have "split_from [d] [] cs \<noteq> []" by (rule split_from_nonempty)
    then show ?thesis using True hd_split_from_char[of d "[]" cs]
      by (cases "split_from [d] [] cs") simp_all
  next
    case False
    with 2 show ?thesis by simp
  qed
qed

lemma link_name_eq: "link_name g = strip (before_pipe g)"
  by (simp add: link_name_def before_pipe_def hd_py_split_char)

lemma link_alias_2_eq: "link_alias_2 g = strip_parenthetical (before_pipe g)"
  by (simp add: link_alias_2_def before_pipe_def strip_parenthetical_def hd_py_split_char)

lemma link_alias_1_eq:
  "link_alias_1 g = Inr (if CHR ''|'' \<in> set g then Some (strip_parenthetical (after_pipe g)) else None)"
  using split_from_char_second[of "CHR ''|''" g "[]"]
  by (simp add: link_alias_1_def py_split_def getitem_def bind_r_def after_pipe_def
      strip_parenthetical_def hd_py_split_char[unfolded py_split_def])

lemma line_candidate_eq:
  "search_link line = Some g \<Longrightarrow> line_candidate line = Inr (strip (before_pipe g))"
  by (simp add: line_candidate_def before_pipe_def hd_py_split_char)

lemma try_aliases_find:
  assumes "search_link line = Some g"
  shows "try_aliases ops names line all =
     Inr (case find (matches names) (List.map_filter (\<lambda>x. x) ops) of None \<Rightarrow> all
          | Some a \<Rightarrow> add_candidate (alias_key_of a) (strip (before_pipe g)) all)"
proof (induction ops)
  case Nil
  show ?case by simp
next
  case (Cons a ops)
  then show ?case
    by (cases a) (simp_all add: line_candidate_eq[OF assms] matches_def)
qed

lemma try_line_eq:
  "try_line names line all =
     Inr (case search_link line of None \<Rightarrow> all
          | Some g \<Rightarrow> (case find (matches names) (aliases g) of None \<Rightarrow> all
              | Some a \<Rightarrow> add_candidate (alias_key_of a) (strip (before_pipe g)) all))"
proof (cases "search_link line")
  case None
  then show ?thesis by (simp add: try_line_def)
next
  case (Some g)
  have "List.map_filter (\<lambda>x. x) [Some (link_name g),
          if CHR ''|'' \<in> set g then Some (strip_parenthetical (after_pipe g)) else None,
          Some (link_alias_2 g)] = aliases g"
    by (simp add: aliases_def link_name_eq link_alias_2_eq)
  then show ?thesis
    using try_aliases_find[OF Some, of "[Some (link_name g),
          if CHR ''|'' \<in> set g then Some (strip_parenthetical (after_pipe g)) else None,
          Some (link_alias_2 g)]" names all] Some
    by (simp add: try_line_def link_alias_1_eq)
qed

lemma extract_candidates_line_eq:
  "extract_candidates_line names line all =
     Inr (case search_link (strip line) of None \<Rightarrow> all
          | Some g \<Rightarrow> (case find (matches names) (aliases g) of None \<Rightarrow> all
              | Some a \<Rightarrow> add_candidate (alias_key_of a) (strip (before_pipe g)) all))"
  by (simp add: extract_candidates_line_def try_line_eq)

lemma update_new: "k \<notin> fst ` set al \<Longrightarrow> AList.update k v al = al @ [(k, v)]"
  by (induction al) auto

lemma map_fst_map_entry: "map fst (AList.map_entry k f al) = map fst al"
  by (induction al) auto

lemma map_fst_add_candidate:
  "map fst (add_candidate k c all) = (if c \<in> keys all then map fst all else map fst all @ [c])"
  by (simp add: add_candidate_def keys_def update_new map_fst_map_entry)

lemma keys_add_candidate: "keys (add_candidate k c all) = insert c (keys all)"
  using map_fst_add_candidate[of k c all] 
  by (auto simp: keys_def simp flip: set_map)

lemma distinct_add_candidate:
  "distinct (map fst all) \<Longrightarrow> distinct (map fst (add_candidate k c all))"
  by (simp add: map_fst_add_candidate keys_def)


lemma search_link_Some:
  "search_link s = Some g \<Longrightarrow>
   \<exists>pre post. s = pre @ ''[['' @ g @ '']]'' @ post \<and> CHR '']'' \<notin> set g
     \<and> (\<forall>i<length pre. match_link_at (drop i s) = None)"
proof (induction s)
  case Nil
  then show ?case by simp
next
  case (Cons c cs)
  show ?case
  proof (cases "match_link_at (c # cs)")
    case None
    with Cons.prems have "search_link cs = Some g" by simp
    from Cons.IH[OF this] obtain pre post where
      cs: "cs = pre @ ''[['' @ g @ '']]'' @ post" and g: "CHR '']'' \<notin> set g"
      and no: "\<forall>i<length pre. match_link_at (drop i cs) = None" by blast
    have "\<forall>i<length (c # pre). match_link_at (drop i (c # cs)) = None"
    proof (intro allI impI)
      fix i assume "i < length (c # pre)"
      then show "match_link_at (drop i (c # cs)) = None"
        using None no by (cases i) auto
    qed
    moreover have "c # cs = (c # pre) @ ''[['' @ g @ '']]'' @ post" using cs by simp
    ultimately show ?thesis using g by blast
  next
    case (Some p)
    obtain g' r where p: "p = (g', r)" by (cases p)
    with Some Cons.prems have "g' = g" by simp
    with Some p match_link_at_Some[of "c # cs" g r]
    have "c # cs = [] @ ''[['' @ g @ '']]'' @ r \<and> CHR '']'' \<notin> set g" by simp
    then show ?thesis by (metis list.size(3) not_less_zero)
  qed
qed

lemma extract_candidates_lines_distinct:
  "distinct (map fst all) \<Longrightarrow>
   \<exists>res. extract_candidates_lines names data all = Inr res \<and> distinct (map fst res)"
proof (induction data arbitrary: all)
  case Nil
  then show ?case by simp
next
  case (Cons line data)
  obtain res where res: "extract_candidates_line names line all = Inr res"
    by (simp add: extract_candidates_line_eq)
  with Cons.prems have "distinct (map fst res)"
    by (auto simp: extract_candidates_line_eq distinct_add_candidate split: option.splits)
  from Cons.IH[OF this] res show ?case by simp
qed

text \<open>
  C6. On every line the miner looks at the first bracketed link only, tries the aliases in
  the order name, alias_1, alias_2, and adds the link target as a candidate for the first
  alias that matches, so the map grows by at most one record per line. With the entity table
  \<open>{"amsterdam"}\<close> the line \<open>The city [[Amsterdam|capital]] is busy\<close> creates the
  candidate \<open>Amsterdam\<close> with references \<open>{"amsterdam"}\<close>.
\<close>

theorem miner_first_match_wins:
  "extract_candidates_line names line all =
     Inr (case search_link (strip line) of None \<Rightarrow> all
          | Some g \<Rightarrow> (case find (matches names) (aliases g) of None \<Rightarrow> all
              | Some a \<Rightarrow> add_candidate (alias_key_of a) (strip (before_pipe g)) all))
   \<and> (\<exists>res. extract_candidates_line names line all = Inr res
         \<and> length res \<le> length all + 1)
   \<and> extract_candidates [''The city [[Amsterdam|capital]] is busy''] [(''amsterdam'', e)]
       = Inr [(''Amsterdam'', new_candidate ''amsterdam'' ''Amsterdam'')]
   \<and> references (new_candidate ''amsterdam'' ''Amsterdam'') = [''amsterdam'']"
proof -
  have len: "length (add_candidate k c all) \<le> length all + 1" for k c
    using arg_cong[OF map_fst_add_candidate[of k c all], of length] by (simp split: if_splits)
  have one: "\<exists>res. extract_candidates_line names line all = Inr res
         \<and> length res \<le> length all + 1"
    using len by (simp add: extract_candidates_line_eq split: option.splits)
  have "search_link (strip ''The city [[Amsterdam|capital]] is busy'') = Some ''Amsterdam|capital''"
    by code_simp
  moreover have "aliases ''Amsterdam|capital'' = [''Amsterdam'', ''capital'', ''Amsterdam'']"
    by code_simp
  moreover have "strip (before_pipe ''Amsterdam|capital'') = ''Amsterdam''"
    by code_simp
  moreover have "alias_key_of ''Amsterdam'' = ''amsterdam''" "alias_key_of ''amsterdam'' = ''amsterdam''"
    by code_simp+
  ultimately have ex: "extract_candidates [''The city [[Amsterdam|capital]] is busy''] [(''amsterdam'', e)]
       = Inr [(''Amsterdam'', new_candidate ''amsterdam'' ''Amsterdam'')]"
    by (simp add: extract_candidates_def entity_names_of_def keys_def extract_candidates_line_eq
        matches_def add_candidate_def)
  show ?thesis using one ex by (simp add: extract_candidates_line_eq new_candidate_def)
qed

text \<open>
  C10. When the full target does not match and one of the later aliases does, the key
  recorded in the map is still the stripped text before the first \<open>|\<close> of the first
  bracketed link of the line: the keys after the line are the keys before it and that text.
\<close>

theorem candidate_surface_form_is_link_target:
  assumes "search_link (strip line) = Some g"
    and "\<not> matches names (strip (before_pipe g))"
    and "find (matches names) (aliases g) = Some a"
  shows "extract_candidates_line names line all =
           Inr (add_candidate (alias_key_of a) (strip (before_pipe g)) all)
    \<and> keys (add_candidate (alias_key_of a) (strip (before_pipe g)) all)
        = insert (strip (before_pipe g)) (keys all)
    \<and> (\<exists>pre post. strip line = pre @ ''[['' @ g @ '']]'' @ post
          \<and> (\<forall>i<length pre. match_link_at (drop i (strip line)) = None))"
  using assms search_link_Some[OF assms(1)]
  by (auto simp: extract_candidates_line_eq keys_add_candidate)

theorem candidate_surface_form_is_link_target_witness:
  "extract_candidates_line {''amsterdam''} ''x [[Hoofdstad|Amsterdam (stad)]] y'' []
     = Inr [(''Hoofdstad'', new_candidate ''amsterdam'' ''Hoofdstad'')]"
proof -
  have 1: "search_link (strip ''x [[Hoofdstad|Amsterdam (stad)]] y'') = Some ''Hoofdstad|Amsterdam (stad)''"
    by code_simp
  have 2: "\<not> matches {''amsterdam''} (strip (before_pipe ''Hoofdstad|Amsterdam (stad)''))"
    by code_simp
  have 3: "find (matches {''amsterdam''}) (aliases ''Hoofdstad|Amsterdam (stad)'') = Some ''Amsterdam''"
    by code_simp
  have 4: "add_candidate (alias_key_of ''Amsterdam'') (strip (before_pipe ''Hoofdstad|Amsterdam (stad)'')) []
     = [(''Hoofdstad'', new_candidate ''amsterdam'' ''Hoofdstad'')]"
    by code_simp
  from candidate_surface_form_is_link_target[OF 1 2 3, of "[]"] 4 show ?thesis by simp
qed

text \<open>
  C9. A line whose candidate surface form is already a key of the map leaves the keys as
  they are, adds the matching entity key to the references of that record, changing no
  other field and no other record; and the keys of the map the miner returns are distinct.
\<close>

theorem rediscovery_only_adds_reference:
  assumes "search_link (strip line) = Some g"
    and "find (matches names) (aliases g) = Some a"
    and "map_of all (strip (before_pipe g)) = Some r"
  shows "\<exists>res. extract_candidates_line names line all = Inr res
     \<and> map fst res = map fst all
     \<and> map_of res (strip (before_pipe g))
         = Some (r\<lparr>references := set_add (alias_key_of a) (references r)\<rparr>)
     \<and> set (set_add (alias_key_of a) (references r)) = insert (alias_key_of a) (set (references r))
     \<and> (\<forall>c. c \<noteq> strip (before_pipe g) \<longrightarrow> map_of res c = map_of all c)
     \<and> (\<forall>data entities. \<exists>final. extract_candidates data entities = Inr final
           \<and> distinct (map fst final))"
proof -
  let ?c = "strip (before_pipe g)"
  let ?res = "add_candidate (alias_key_of a) ?c all"
  from assms(3) have inkeys: "?c \<in> keys all" by (simp add: in_keys_iff)
  have run: "extract_candidates_line names line all = Inr ?res"
    using assms by (simp add: extract_candidates_line_eq)
  have "map fst ?res = map fst all" using inkeys by (simp add: map_fst_add_candidate)
  moreover have "map_of ?res ?c = Some (r\<lparr>references := set_add (alias_key_of a) (references r)\<rparr>)"
    using inkeys assms(3) by (simp add: add_candidate_def map_of_map_entry)
  moreover have "\<forall>c. c \<noteq> ?c \<longrightarrow> map_of ?res c = map_of all c"
    using inkeys by (simp add: add_candidate_def map_of_map_entry)
  moreover have "set (set_add (alias_key_of a) (references r)) = insert (alias_key_of a) (set (references r))"
    by (auto simp: set_add_def)
  moreover have "\<forall>data entities. \<exists>final. extract_candidates data entities = Inr final
           \<and> distinct (map fst final)"
    using extract_candidates_lines_distinct[of "[]"] by (simp add: extract_candidates_def)
  ultimately show ?thesis using run by blast
qed

theorem rediscovery_only_adds_reference_witness:
  "\<exists>res. extract_candidates_line {''hoofdstad''} ''[[Amsterdam|Hoofdstad]]''
            [(''Amsterdam'', new_candidate ''amsterdam'' ''Amsterdam'')] = Inr res
     \<and> map fst res = [''Amsterdam'']
     \<and> map_of res ''Amsterdam'' =
         Some ((new_candidate ''amsterdam'' ''Amsterdam'')
                 \<lparr>references := [''amsterdam'', ''hoofdstad'']\<rparr>)"
proof -
  have 1: "search_link (strip ''[[Amsterdam|Hoofdstad]]'') = Some ''Amsterdam|Hoofdstad''"
    by code_simp
  have 2: "find (matches {''hoofdstad''}) (aliases ''Amsterdam|Hoofdstad'') = Some ''Hoofdstad''"
    by code_simp
  have 3: "strip (before_pipe ''Amsterdam|Hoofdstad'') = ''Amsterdam''"
    by code_simp
  have 4: "map_of [(''Amsterdam'', new_candidate ''amsterdam'' ''Amsterdam'')]
             (strip (before_pipe ''Amsterdam|Hoofdstad''))
           = Some (new_candidate ''amsterdam'' ''Amsterdam'')"
    by (simp add: 3)
  have 5: "set_add (alias_key_of ''Hoofdstad'') (references (new_candidate ''amsterdam'' ''Amsterdam''))
           = [''amsterdam'', ''hoofdstad'']"
    by code_simp
  from rediscovery_only_adds_reference[OF 1 2 4] obtain res where
    "extract_candidates_line {''hoofdstad''} ''[[Amsterdam|Hoofdstad]]''
            [(''Amsterdam'', new_candidate ''amsterdam'' ''Amsterdam'')] = Inr res"
    and "map fst res = map fst [(''Amsterdam'', new_candidate ''amsterdam'' ''Amsterdam'')]"
    and "map_of res (strip (before_pipe ''Amsterdam|Hoofdstad'')) =
         Some ((new_candidate ''amsterdam'' ''Amsterdam'')
            \<lparr>references := set_add (alias_key_of ''Hoofdstad'')
                (references (new_candidate ''amsterdam'' ''Amsterdam''))\<rparr>)"
    by (elim exE conjE)
  then show ?thesis
    by (intro exI[of _ res]) (simp add: 3 5)
qed

text \<open>The miner creates every record with both counters at 0 and never changes them.\<close>

definition fresh_counts :: "candidate dict \<Rightarrow> bool" where
  "fresh_counts d = (\<forall>r \<in> snd ` set d. inCount r = 0 \<and> outCount r = 0)"

lemma set_map_entry:
  "p \<in> set (AList.map_entry k f al) \<Longrightarrow> p \<in> set al \<or> (\<exists>v. (k, v) \<in> set al \<and> p = (k, f v))"
  by (induction al) (auto split: if_splits)

lemma fresh_counts_add_candidate:
  "fresh_counts d \<Longrightarrow> fresh_counts (add_candidate k c d)"
  unfolding fresh_counts_def add_candidate_def
  by (auto simp: update_new keys_def new_candidate_def dest!: set_map_entry)

lemma fresh_counts_lines:
  "fresh_counts d \<Longrightarrow> extract_candidates_lines names data d = Inr res \<Longrightarrow> fresh_counts res"
proof (induction data arbitrary: d)
  case Nil
  then show ?case by simp
next
  case (Cons line data)
  let ?d = "case search_link (strip line) of None \<Rightarrow> d
          | Some g \<Rightarrow> (case find (matches names) (aliases g) of None \<Rightarrow> d
              | Some a \<Rightarrow> add_candidate (alias_key_of a) (strip (before_pipe g)) d)"
  have "fresh_counts ?d"
    using Cons.prems(1) by (auto simp: fresh_counts_add_candidate split: option.splits)
  moreover have "extract_candidates_lines names data ?d = Inr res"
    using Cons.prems(2) by (simp add: extract_candidates_line_eq)
  ultimately show ?case by (rule Cons.IH)
qed

lemma mined_counts_zero:
  assumes "extract_candidates data entities = Inr mined" and "map_of mined c = Some r"
  shows "inCount r = 0 \<and> outCount r = 0"
proof -
  have "fresh_counts mined"
    using assms(1) fresh_counts_lines[of "[]"] by (simp add: extract_candidates_def fresh_counts_def)
  moreover have "r \<in> snd ` set mined"
    using map_of_SomeD[OF assms(2)] by force
  ultimately show ?thesis by (auto simp: fresh_counts_def)
qed
section \<open>Properties of the Link-Graph Counter\<close>

text \<open>
  What one page adds to the counters of the candidate \<open>c\<close>, for the key set \<open>K\<close> of the map:
  a page is counted when its title is not empty and is a key; a counted page adds one
  incoming link to \<open>c\<close> for every extracted link whose target is \<open>c\<close>, and a counted page
  with the title \<open>c\<close> adds one outgoing link for every extracted link whose target is a key.
\<close>

definition counted_page :: "string set \<Rightarrow> string \<Rightarrow> bool" where
  "counted_page K page = (case page_title page of None \<Rightarrow> False | Some t \<Rightarrow> t \<noteq> [] \<and> t \<in> K)"

definition in_links :: "string set \<Rightarrow> string \<Rightarrow> string \<Rightarrow> int" where
  "in_links K c page =
     (if counted_page K page
      then int (length (filter (\<lambda>lnk. link_target lnk = c) (page_links page))) else 0)"

definition out_links :: "string set \<Rightarrow> string \<Rightarrow> string \<Rightarrow> int" where
  "out_links K c page =
     (if counted_page K page \<and> page_title page = Some c
      then int (length (filter (\<lambda>lnk. link_target lnk \<in> K) (page_links page))) else 0)"

definition in_total :: "string set \<Rightarrow> string \<Rightarrow> string list \<Rightarrow> int" where
  "in_total K c files = (\<Sum>content\<leftarrow>files. \<Sum>page\<leftarrow>pages_of content. in_links K c page)"

definition out_total :: "string set \<Rightarrow> string \<Rightarrow> string list \<Rightarrow> int" where
  "out_total K c files = (\<Sum>content\<leftarrow>files. \<Sum>page\<leftarrow>pages_of content. out_links K c page)"

text \<open>The counters stored under a key, if the key is in the map.\<close>

definition in_of :: "candidate dict \<Rightarrow> string \<Rightarrow> int option" where
  "in_of d c = map_option inCount (map_of d c)"

definition out_of :: "candidate dict \<Rightarrow> string \<Rightarrow> int option" where
  "out_of d c = map_option outCount (map_of d c)"

lemma keys_map_entry: "keys (AList.map_entry k f d) = keys d"
  by (simp add: keys_def dom_map_entry)

lemma keys_count_links: "keys (count_links t ls d) = keys d"
  by (induction ls arbitrary: d) (simp_all add: keys_map_entry)

lemma keys_count_page: "keys (count_page page d) = keys d"
  by (simp add: count_page_def keys_count_links keys_map_entry split: option.splits)

lemma fold_additive:
  fixes proj :: "candidate dict \<Rightarrow> int option"
  assumes k: "\<And>x d. keys (step x d) = keys d"
    and p: "\<And>x d. proj (step x d) = map_option (\<lambda>n. n + w (keys d) x) (proj d)"
  shows "proj (fold step xs d) = map_option (\<lambda>n. n + (\<Sum>x\<leftarrow>xs. w (keys d) x)) (proj d)"
proof (induction xs arbitrary: d)
  case Nil
  show ?case by (simp add: option.map_ident)
next
  case (Cons x xs)
  show ?case
    by (simp add: Cons.IH k p option.map_comp comp_def add.assoc)
qed

lemma keys_fold:
  assumes "\<And>x d. keys (step x d) = keys d"
  shows "keys (fold step xs d) = keys (d :: candidate dict)"
  by (induction xs arbitrary: d) (simp_all add: assms)

lemma in_of_map_entry_same:
  "(\<And>r. inCount (f r) = inCount r) \<Longrightarrow> in_of (AList.map_entry k f d) c = in_of d c"
  by (simp add: in_of_def map_of_map_entry split: option.splits)

lemma out_of_map_entry_same:
  "(\<And>r. outCount (f r) = outCount r) \<Longrightarrow> out_of (AList.map_entry k f d) c = out_of d c"
  by (simp add: out_of_def map_of_map_entry split: option.splits)

lemma in_of_map_entry_incr:
  "in_of (AList.map_entry k (\<lambda>r. r\<lparr>inCount := inCount r + 1\<rparr>) d) c =
     map_option (\<lambda>n. n + (if k = c then 1 else 0)) (in_of d c)"
  by (simp add: in_of_def map_of_map_entry option.map_comp comp_def option.map_ident
      split: option.splits)

lemma out_of_map_entry_incr:
  "out_of (AList.map_entry k (\<lambda>r. r\<lparr>outCount := outCount r + 1\<rparr>) d) c =
     map_option (\<lambda>n. n + (if k = c then 1 else 0)) (out_of d c)"
  by (simp add: out_of_def map_of_map_entry option.map_comp comp_def option.map_ident
      split: option.splits)

lemma count_links_in:
  "in_of (count_links t ls d) c =
     map_option (\<lambda>n. n + int (length (filter (\<lambda>lnk. link_target lnk = c) ls))) (in_of d c)"
proof (induction ls arbitrary: d)
  case Nil
  show ?case by (simp add: option.map_ident)
next
  case (Cons l ls)
  show ?case
  proof (cases "link_target l \<in> keys d")
    case True
    let ?d = "AList.map_entry t
                (\<lambda>c. c\<lparr>links := set_add (Some (link_target l)) (links c)\<rparr>)
             (AList.map_entry t (\<lambda>c. c\<lparr>outCount := outCount c + 1\<rparr>)
             (AList.map_entry (link_target l) (\<lambda>c. c\<lparr>inCount := inCount c + 1\<rparr>) d))"
    have step: "count_links t (l # ls) d = count_links t ls ?d"
      using True by simp
    have one: "in_of ?d c = map_option (\<lambda>n. n + (if link_target l = c then 1 else 0)) (in_of d c)"
      by (simp add: in_of_map_entry_same in_of_map_entry_incr)
    show ?thesis
      unfolding step Cons.IH one
      by (cases "link_target l = c") (simp_all add: option.map_comp comp_def ac_simps)
  next
    case False
    then have "link_target l = c \<Longrightarrow> in_of d c = None"
      by (auto simp: in_of_def in_keys_iff)
    with False show ?thesis
      by (cases "link_target l = c") (simp_all add: Cons.IH)
  qed
qed

lemma count_links_out:
  "out_of (count_links t ls d) c =
     map_option (\<lambda>n. n + (if c = t then int (length (filter (\<lambda>lnk. link_target lnk \<in> keys d) ls)) else 0))
       (out_of d c)"
proof (induction ls arbitrary: d)
  case Nil
  show ?case by (simp add: option.map_ident)
next
  case (Cons l ls)
  show ?case
  proof (cases "link_target l \<in> keys d")
    case True
    let ?d = "AList.map_entry t
                (\<lambda>c. c\<lparr>links := set_add (Some (link_target l)) (links c)\<rparr>)
             (AList.map_entry t (\<lambda>c. c\<lparr>outCount := outCount c + 1\<rparr>)
             (AList.map_entry (link_target l) (\<lambda>c. c\<lparr>inCount := inCount c + 1\<rparr>) d))"
    have step: "count_links t (l # ls) d = count_links t ls ?d"
      using True by simp
    have one: "out_of ?d c = map_option (\<lambda>n. n + (if t = c then 1 else 0)) (out_of d c)"
      by (simp add: out_of_map_entry_same out_of_map_entry_incr)
    have k: "keys ?d = keys d"
      by (simp add: keys_map_entry)
    show ?thesis
      unfolding step Cons.IH one k using True
      by (cases "t = c") (auto simp: option.map_comp comp_def ac_simps)
  next
    case False
    then show ?thesis by (simp add: Cons.IH)
  qed
qed

lemma count_page_in:
  "in_of (count_page page d) c = map_option (\<lambda>n. n + in_links (keys d) c page) (in_of d c)"
  by (simp add: count_page_def in_links_def counted_page_def count_links_in in_of_map_entry_same
      option.map_ident split: option.splits)

lemma count_page_out:
  "out_of (count_page page d) c = map_option (\<lambda>n. n + out_links (keys d) c page) (out_of d c)"
  by (simp add: count_page_def out_links_def counted_page_def count_links_out out_of_map_entry_same
      option.map_ident keys_map_entry split: option.splits)

lemma keys_count_file: "keys (count_file content d) = keys d"
  by (simp add: count_file_def keys_fold keys_count_page)

lemma count_file_in:
  "in_of (count_file content d) c =
     map_option (\<lambda>n. n + (\<Sum>page\<leftarrow>pages_of content. in_links (keys d) c page)) (in_of d c)"
  unfolding count_file_def
  by (rule fold_additive[where proj = "\<lambda>d. in_of d c" and w = "\<lambda>K page. in_links K c page"])
     (simp_all add: keys_count_page count_page_in)

lemma count_file_out:
  "out_of (count_file content d) c =
     map_option (\<lambda>n. n + (\<Sum>page\<leftarrow>pages_of content. out_links (keys d) c page)) (out_of d c)"
  unfolding count_file_def
  by (rule fold_additive[where proj = "\<lambda>d. out_of d c" and w = "\<lambda>K page. out_links K c page"])
     (simp_all add: keys_count_page count_page_out)

lemma counts_in:
  "in_of (extract_candidates_counts files d) c =
     map_option (\<lambda>n. n + in_total (keys d) c files) (in_of d c)"
  unfolding extract_candidates_counts_def in_total_def
  by (rule fold_additive[where proj = "\<lambda>d. in_of d c"
        and w = "\<lambda>K content. (\<Sum>page\<leftarrow>pages_of content. in_links K c page)"])
     (simp_all add: keys_count_file count_file_in)

lemma counts_out:
  "out_of (extract_candidates_counts files d) c =
     map_option (\<lambda>n. n + out_total (keys d) c files) (out_of d c)"
  unfolding extract_candidates_counts_def out_total_def
  by (rule fold_additive[where proj = "\<lambda>d. out_of d c"
        and w = "\<lambda>K content. (\<Sum>page\<leftarrow>pages_of content. out_links K c page)"])
     (simp_all add: keys_count_file count_file_out)


lemma sum_list_map_mset:
  fixes f :: "'a \<Rightarrow> int"
  assumes "mset xs = mset ys"
  shows "sum_list (map f xs) = sum_list (map f ys)"
proof -
  have "sum_list (map f xs) = sum_mset (image_mset f (mset xs))"
    by (simp flip: sum_mset_sum_list)
  also have "\<dots> = sum_mset (image_mset f (mset ys))" using assms by simp
  also have "\<dots> = sum_list (map f ys)" by (simp flip: sum_mset_sum_list)
  finally show ?thesis .
qed

text \<open>
  The count as the claim words it: every link with the target \<open>c\<close> on every page of every
  shard, whatever the title of the page.
\<close>

definition link_observations :: "string \<Rightarrow> string list \<Rightarrow> int" where
  "link_observations c files =
     (\<Sum>content\<leftarrow>files. \<Sum>page\<leftarrow>pages_of content.
        int (length (filter (\<lambda>lnk. link_target lnk = c) (page_links page))))"

text \<open>
  C1, as stated, fails: a page titled \<open>Amsterdam\<close>, not a candidate, links to the candidate
  \<open>Rotterdam\<close>; there is one observation of \<open>Rotterdam\<close> as a link target, and its
  \<open>inCount\<close> stays 0, because links are counted only on pages whose title is a key.
\<close>

theorem in_count_page_gate_counterexample:
  "link_observations ''Rotterdam'' [''<page><title>Amsterdam</title><id>5042</id>[[Rotterdam]]</page>''] = 1
   \<and> in_of (extract_candidates_counts
         [''<page><title>Amsterdam</title><id>5042</id>[[Rotterdam]]</page>'']
         [(''Rotterdam'', new_candidate ''rotterdam'' ''Rotterdam'')]) ''Rotterdam'' = Some 0"
  by code_simp

text \<open>
  C1, amended. After the pass over all shards the \<open>inCount\<close> of a candidate \<open>c\<close> is its
  value before the pass (0 from the miner) plus the number of extracted non-namespace link
  occurrences with target \<open>c\<close> on the pages whose title is itself a candidate key, and its
  \<open>outCount\<close> is its value before plus the number of extracted non-namespace link
  occurrences on the pages titled \<open>c\<close> whose target is a candidate key.
\<close>

theorem link_counts_closed_form:
  assumes "map_of all c = Some r"
  shows "(\<exists>r'. map_of (extract_candidates_counts files all) c = Some r'
       \<and> inCount r' = inCount r + in_total (keys all) c files
       \<and> outCount r' = outCount r + out_total (keys all) c files)
     \<and> (extract_candidates data entities = Inr all \<longrightarrow> inCount r = 0 \<and> outCount r = 0)"
proof -
  have "in_of (extract_candidates_counts files all) c = Some (inCount r + in_total (keys all) c files)"
    using assms by (simp add: counts_in) (simp add: in_of_def)
  moreover have "out_of (extract_candidates_counts files all) c
      = Some (outCount r + out_total (keys all) c files)"
    using assms by (simp add: counts_out) (simp add: out_of_def)
  ultimately have "\<exists>r'. map_of (extract_candidates_counts files all) c = Some r'
       \<and> inCount r' = inCount r + in_total (keys all) c files
       \<and> outCount r' = outCount r + out_total (keys all) c files"
    by (auto simp: in_of_def out_of_def)
  then show ?thesis using mined_counts_zero[OF _ assms] by blast
qed

theorem link_counts_closed_form_witness:
  "extract_candidates [''[[Amsterdam]]'', ''[[Rotterdam]]'']
       [(''amsterdam'', \<lparr>name = ''Amsterdam'', link = ''u'', wname = ''w'', fid = ''f'',
                         wid = ''i'', candidates = []\<rparr>),
        (''rotterdam'', \<lparr>name = ''Rotterdam'', link = ''u'', wname = ''w'', fid = ''f'',
                         wid = ''i'', candidates = []\<rparr>)]
     = Inr [(''Amsterdam'', new_candidate ''amsterdam'' ''Amsterdam''),
            (''Rotterdam'', new_candidate ''rotterdam'' ''Rotterdam'')]
   \<and> (\<exists>r'. map_of (extract_candidates_counts
         [''<page><title>Amsterdam</title><id>5042</id>[[Rotterdam]]</page>'']
         [(''Amsterdam'', new_candidate ''amsterdam'' ''Amsterdam''),
          (''Rotterdam'', new_candidate ''rotterdam'' ''Rotterdam'')]) ''Rotterdam'' = Some r'
     \<and> inCount r' = 1 \<and> outCount r' = 0)"
proof -
  let ?shard = "''<page><title>Amsterdam</title><id>5042</id>[[Rotterdam]]</page>''"
  let ?all = "[(''Amsterdam'', new_candidate ''amsterdam'' ''Amsterdam''),
          (''Rotterdam'', new_candidate ''rotterdam'' ''Rotterdam'')]"
  have 0: "extract_candidates [''[[Amsterdam]]'', ''[[Rotterdam]]'']
       [(''amsterdam'', \<lparr>name = ''Amsterdam'', link = ''u'', wname = ''w'', fid = ''f'',
                         wid = ''i'', candidates = []\<rparr>),
        (''rotterdam'', \<lparr>name = ''Rotterdam'', link = ''u'', wname = ''w'', fid = ''f'',
                         wid = ''i'', candidates = []\<rparr>)] = Inr ?all"
    by code_simp
  have 1: "map_of ?all ''Rotterdam'' = Some (new_candidate ''rotterdam'' ''Rotterdam'')"
    by simp
  have 2: "in_total (keys ?all) ''Rotterdam'' [?shard] = 1"
    by code_simp
  have 3: "out_total (keys ?all) ''Rotterdam'' [?shard] = 0"
    by code_simp
  note inst = link_counts_closed_form[OF 1, of "[?shard]" "[''[[Amsterdam]]'', ''[[Rotterdam]]'']"
       "[(''amsterdam'', \<lparr>name = ''Amsterdam'', link = ''u'', wname = ''w'', fid = ''f'',
                         wid = ''i'', candidates = []\<rparr>),
        (''rotterdam'', \<lparr>name = ''Rotterdam'', link = ''u'', wname = ''w'', fid = ''f'',
                         wid = ''i'', candidates = []\<rparr>)]"]
  from inst 0 have 4: "inCount (new_candidate ''rotterdam'' ''Rotterdam'') = 0"
     "outCount (new_candidate ''rotterdam'' ''Rotterdam'') = 0"
    by blast+
  from inst have "\<exists>r'. map_of (extract_candidates_counts [?shard] ?all) ''Rotterdam'' = Some r'
       \<and> inCount r' = inCount (new_candidate ''rotterdam'' ''Rotterdam'')
            + in_total (keys ?all) ''Rotterdam'' [?shard]
       \<and> outCount r' = outCount (new_candidate ''rotterdam'' ''Rotterdam'')
            + out_total (keys ?all) ''Rotterdam'' [?shard]"
    by (rule conjunct1)
  then have "\<exists>r'. map_of (extract_candidates_counts [?shard] ?all) ''Rotterdam'' = Some r'
       \<and> inCount r' = 1 \<and> outCount r' = 0"
    unfolding 2 3 4 by simp
  with 0 show ?thesis by (rule conjI)
qed

theorem counts_independent_of_shard_order:
  assumes "mset files' = mset files"
  shows "in_of (extract_candidates_counts files' all) c = in_of (extract_candidates_counts files all) c
    \<and> out_of (extract_candidates_counts files' all) c = out_of (extract_candidates_counts files all) c"
proof -
  have "in_total (keys all) c files' = in_total (keys all) c files"
    unfolding in_total_def by (rule sum_list_map_mset[OF assms])
  moreover have "out_total (keys all) c files' = out_total (keys all) c files"
    unfolding out_total_def by (rule sum_list_map_mset[OF assms])
  ultimately show ?thesis by (simp add: counts_in counts_out)
qed

theorem counts_independent_of_shard_order_witness:
  "in_of (extract_candidates_counts
       [''<page><title>Rotterdam</title>[[Amsterdam]] [[Amsterdam|A]]'',
        ''<page><title>Amsterdam</title><id>5042</id>[[Rotterdam]]</page>'']
       [(''Amsterdam'', new_candidate ''amsterdam'' ''Amsterdam''),
        (''Rotterdam'', new_candidate ''rotterdam'' ''Rotterdam'')]) ''Amsterdam''
   = in_of (extract_candidates_counts
       [''<page><title>Amsterdam</title><id>5042</id>[[Rotterdam]]</page>'',
        ''<page><title>Rotterdam</title>[[Amsterdam]] [[Amsterdam|A]]'']
       [(''Amsterdam'', new_candidate ''amsterdam'' ''Amsterdam''),
        (''Rotterdam'', new_candidate ''rotterdam'' ''Rotterdam'')]) ''Amsterdam''
   \<and> in_of (extract_candidates_counts
       [''<page><title>Amsterdam</title><id>5042</id>[[Rotterdam]]</page>'',
        ''<page><title>Rotterdam</title>[[Amsterdam]] [[Amsterdam|A]]'']
       [(''Amsterdam'', new_candidate ''amsterdam'' ''Amsterdam''),
        (''Rotterdam'', new_candidate ''rotterdam'' ''Rotterdam'')]) ''Amsterdam'' = Some 2"
proof -
  let ?s1 = "''<page><title>Amsterdam</title><id>5042</id>[[Rotterdam]]</page>''"
  let ?s2 = "''<page><title>Rotterdam</title>[[Amsterdam]] [[Amsterdam|A]]''"
  have p: "mset [?s2, ?s1] = mset [?s1, ?s2]"
    by (simp add: add_mset_commute)
  have v: "in_of (extract_candidates_counts [?s1, ?s2]
       [(''Amsterdam'', new_candidate ''amsterdam'' ''Amsterdam''),
        (''Rotterdam'', new_candidate ''rotterdam'' ''Rotterdam'')]) ''Amsterdam'' = Some 2"
    by code_simp
  from counts_independent_of_shard_order[OF p] v show ?thesis by simp
qed

section \<open>Properties of the Exporter\<close>

text \<open>The popularity of a candidate: the sum of its two counters.\<close>

definition total_count :: "candidate \<Rightarrow> int" where
  "total_count c = inCount c + outCount c"

lemma popularity_key_with_popularity: "popularity_key (with_popularity c) = total_count c"
  by (simp add: popularity_key_def with_popularity_def total_count_def)

lemma total_count_with_popularity: "total_count (with_popularity c) = total_count c"
  by (simp add: with_popularity_def total_count_def)

lemma popularity_key_ranked:
  "c \<in> set (sorted_reverse popularity_key (map with_popularity cs)) \<Longrightarrow>
   popularity_key c = total_count c"
  by (auto simp: sorted_reverse_def popularity_key_with_popularity total_count_with_popularity)

lemma sorted_reverse_sorted:
  "sorted_wrt (\<lambda>a b. key b \<le> key a) (sorted_reverse key xs)"
proof -
  have "sorted (map (\<lambda>x. - key x) (sort_key (\<lambda>x. - key x) xs))"
    by (rule sorted_sort_key)
  then show ?thesis by (simp add: sorted_reverse_def sorted_map)
qed

lemma sorted_reverse_stable:
  "filter (\<lambda>x. key x = k) (sorted_reverse key xs) = filter (\<lambda>x. key x = k) xs"
  using sort_key_stable[of "\<lambda>x. - key x" "- k" xs] by (simp add: sorted_reverse_def)

lemma sorted_wrt_cong_set:
  "(\<And>a b. a \<in> set xs \<Longrightarrow> b \<in> set xs \<Longrightarrow> P a b = Q a b) \<Longrightarrow> sorted_wrt P xs = sorted_wrt Q xs"
  by (induction xs) auto

lemma ranked_sorted:
  "sorted_wrt (\<lambda>a b. total_count b \<le> total_count a)
     (sorted_reverse popularity_key (map with_popularity cs))"
  using sorted_reverse_sorted[of popularity_key "map with_popularity cs"]
    sorted_wrt_cong_set[of "sorted_reverse popularity_key (map with_popularity cs)"
      "\<lambda>a b. popularity_key b \<le> popularity_key a" "\<lambda>a b. total_count b \<le> total_count a"]
  by (simp add: popularity_key_ranked)

lemma ranked_stable:
  "filter (\<lambda>c. total_count c = k) (sorted_reverse popularity_key (map with_popularity cs))
   = filter (\<lambda>c. total_count c = k) (map with_popularity cs)"
proof -
  let ?r = "sorted_reverse popularity_key (map with_popularity cs)"
  have "filter (\<lambda>c. total_count c = k) ?r = filter (\<lambda>c. popularity_key c = k) ?r"
    by (rule filter_cong) (simp_all add: popularity_key_ranked)
  also have "\<dots> = filter (\<lambda>c. popularity_key c = k) (map with_popularity cs)"
    by (rule sorted_reverse_stable)
  also have "\<dots> = filter (\<lambda>c. total_count c = k) (map with_popularity cs)"
    by (rule filter_cong) (auto simp: popularity_key_with_popularity total_count_with_popularity)
  finally show ?thesis .
qed

lemma export_data_block:
  "export_data split entities = Inr out \<Longrightarrow> ent \<in> set split \<Longrightarrow>
   \<exists>block pre post. export_entity entities ent = Inr block \<and> out = pre @ block @ post"
proof (induction split arbitrary: out)
  case Nil
  then show ?case by simp
next
  case (Cons x split)
  from Cons.prems(1) obtain b r where b: "export_entity entities x = Inr b"
    and r: "export_data split entities = Inr r" and out: "out = b @ r"
    by (auto simp: bind_r_def split: sum.splits)
  show ?case
  proof (cases "ent = x")
    case True
    with b out show ?thesis by (metis append_Nil)
  next
    case False
    with Cons.prems(2) have "ent \<in> set split" by simp
    from Cons.IH[OF r this] obtain block pre post where
      "export_entity entities ent = Inr block" "r = pre @ block @ post" by blast
    with out have "export_entity entities ent = Inr block \<and> out = (b @ pre) @ block @ post"
      by simp
    then show ?thesis by blast
  qed
qed

text \<open>
  C5. For an entity of the table the export writes the ENTITY record and then the records
  of its top candidates: at most 20 of them (all of them when there are fewer), in the order
  of descending popularity \<open>inCount + outCount\<close>, candidates of equal popularity in the
  order they have in the entity's candidate list, and they are the first 20 of the whole
  list so ordered. This block is part of the output of every split that holds the entity.
\<close>

theorem export_top_candidates:
  assumes "map_of entities ent = Some e"
  shows "export_entity entities ent = Inr (entity_line e # map candidate_line (top_candidates e))
    \<and> length (top_candidates e) = min 20 (length (candidates e))
    \<and> sorted_wrt (\<lambda>a b. total_count b \<le> total_count a) (top_candidates e)
    \<and> (\<forall>c \<in> set (top_candidates e). popularity c = Some (inCount c + outCount c))
    \<and> (\<forall>k. prefix (filter (\<lambda>c. total_count c = k) (top_candidates e))
                   (filter (\<lambda>c. total_count c = k) (map with_popularity (candidates e))))
    \<and> (\<exists>rest. mset (top_candidates e @ rest) = mset (map with_popularity (candidates e))
          \<and> sorted_wrt (\<lambda>a b. total_count b \<le> total_count a) (top_candidates e @ rest))
    \<and> (export_data split entities = Inr out \<and> ent \<in> set split \<longrightarrow>
         (\<exists>pre post. out = pre @ (entity_line e # map candidate_line (top_candidates e)) @ post))"
proof -
  let ?cs = "map with_popularity (candidates e)"
  let ?r = "sorted_reverse popularity_key ?cs"
  have top: "top_candidates e = take 20 ?r" by (simp add: top_candidates_def)
  have run: "export_entity entities ent = Inr (entity_line e # map candidate_line (top_candidates e))"
    using assms by (simp add: export_entity_def)
  have len: "length (top_candidates e) = min 20 (length (candidates e))"
    by (simp add: top sorted_reverse_def min.commute)
  have srt: "sorted_wrt (\<lambda>a b. total_count b \<le> total_count a) (top_candidates e)"
    unfolding top by (rule sorted_wrt_take[OF ranked_sorted])
  have pop: "\<forall>c \<in> set (top_candidates e). popularity c = Some (inCount c + outCount c)"
  proof
    fix c assume "c \<in> set (top_candidates e)"
    then have "c \<in> set ?r" unfolding top by (rule in_set_takeD)
    then have "c \<in> set ?cs" by (simp add: sorted_reverse_def)
    then show "popularity c = Some (inCount c + outCount c)"
      by (auto simp: with_popularity_def)
  qed
  have stab: "\<forall>k. prefix (filter (\<lambda>c. total_count c = k) (top_candidates e))
                   (filter (\<lambda>c. total_count c = k) ?cs)"
  proof
    fix k
    have "prefix (filter (\<lambda>c. total_count c = k) (take 20 ?r)) (filter (\<lambda>c. total_count c = k) ?r)"
      by (rule filter_mono_prefix[OF take_is_prefix])
    then show "prefix (filter (\<lambda>c. total_count c = k) (top_candidates e))
                   (filter (\<lambda>c. total_count c = k) ?cs)"
      by (simp add: top ranked_stable)
  qed
  have perm: "\<exists>rest. mset (top_candidates e @ rest) = mset ?cs
          \<and> sorted_wrt (\<lambda>a b. total_count b \<le> total_count a) (top_candidates e @ rest)"
  proof (intro exI[of _ "drop 20 ?r"] conjI)
    show "mset (top_candidates e @ drop 20 ?r) = mset ?cs"
      unfolding top append_take_drop_id by (simp add: sorted_reverse_def)
    show "sorted_wrt (\<lambda>a b. total_count b \<le> total_count a) (top_candidates e @ drop 20 ?r)"
      unfolding top append_take_drop_id by (rule ranked_sorted)
  qed
  have blk: "export_data split entities = Inr out \<and> ent \<in> set split \<longrightarrow>
         (\<exists>pre post. out = pre @ (entity_line e # map candidate_line (top_candidates e)) @ post)"
    using export_data_block[of split entities out ent] run by auto
  show ?thesis using run len srt pop stab perm blk by blast
qed

theorem export_top_candidates_witness:
  "map cand_name (top_candidates
      \<lparr>name = ''E'', link = ''u'', wname = ''w'', fid = ''f'', wid = ''i'',
       candidates = [(new_candidate ''e'' ''A'')\<lparr>inCount := 1\<rparr>,
                     (new_candidate ''e'' ''B'')\<lparr>inCount := 2, outCount := 1\<rparr>,
                     (new_candidate ''e'' ''C'')\<lparr>outCount := 1\<rparr>]\<rparr>) = [''B'', ''A'', ''C'']
   \<and> (\<exists>block. export_entity
      [(''e'', \<lparr>name = ''E'', link = ''u'', wname = ''w'', fid = ''f'', wid = ''i'',
       candidates = [(new_candidate ''e'' ''A'')\<lparr>inCount := 1\<rparr>,
                     (new_candidate ''e'' ''B'')\<lparr>inCount := 2, outCount := 1\<rparr>,
                     (new_candidate ''e'' ''C'')\<lparr>outCount := 1\<rparr>]\<rparr>)] ''e'' = Inr block
        \<and> length block = 4)"
proof -
  let ?e = "\<lparr>name = ''E'', link = ''u'', wname = ''w'', fid = ''f'', wid = ''i'',
       candidates = [(new_candidate ''e'' ''A'')\<lparr>inCount := 1\<rparr>,
                     (new_candidate ''e'' ''B'')\<lparr>inCount := 2, outCount := 1\<rparr>,
                     (new_candidate ''e'' ''C'')\<lparr>outCount := 1\<rparr>]\<rparr>"
  have 1: "map_of [(''e'', ?e)] ''e'' = Some ?e" by simp
  have 2: "map cand_name (top_candidates ?e) = [''B'', ''A'', ''C'']"
    by code_simp
  from export_top_candidates[OF 1]
  have "export_entity [(''e'', ?e)] ''e'' = Inr (entity_line ?e # map candidate_line (top_candidates ?e))"
    and "length (top_candidates ?e) = min 20 (length (candidates ?e))"
    by blast+
  then have "\<exists>block. export_entity [(''e'', ?e)] ''e'' = Inr block \<and> length block = 4"
    by simp
  with 2 show ?thesis by blast
qed

section \<open>Properties of the Redirect Resolver\<close>

text \<open>
  C2. The candidates \<open>Amsterdam\<close> and \<open>Rotterdam\<close> come out of the counter with the page
  \<open>Amsterdam\<close> (id 5042) linking to \<open>Rotterdam\<close>, which is no page of the dump. The
  resolver visits \<open>Amsterdam\<close> first: \<open>Rotterdam\<close> is still a key, so the link is replaced
  by its id, which is \<open>None\<close>; \<open>Rotterdam\<close> is removed only afterwards. The surviving
  candidate keeps a null entry in its links.
\<close>

theorem replace_links_keeps_null_link:
  "replace_links (extract_candidates_counts
      [''<page><title>Amsterdam</title><id>5042</id>[[Rotterdam]]</page>'']
      [(''Amsterdam'', new_candidate ''amsterdam'' ''Amsterdam''),
       (''Rotterdam'', new_candidate ''rotterdam'' ''Rotterdam'')])
   = Inr [(''Amsterdam'', (new_candidate ''amsterdam'' ''Amsterdam'')
            \<lparr>cand_id := Some ''5042'', outCount := 1, links := [None]\<rparr>)]"
  by code_simp

text \<open>
  With the two candidates in the other order \<open>Rotterdam\<close> is removed first, and the link
  to it is dropped.
\<close>

lemma replace_links_drops_link_to_removed:
  "replace_links
      [(''Rotterdam'', (new_candidate ''rotterdam'' ''Rotterdam'')\<lparr>inCount := 1\<rparr>),
       (''Amsterdam'', (new_candidate ''amsterdam'' ''Amsterdam'')
            \<lparr>cand_id := Some ''5042'', outCount := 1, links := [Some ''Rotterdam'']\<rparr>)]
   = Inr [(''Amsterdam'', (new_candidate ''amsterdam'' ''Amsterdam'')
            \<lparr>cand_id := Some ''5042'', outCount := 1, links := []\<rparr>)]"
  by code_simp

section \<open>Properties of the export and its reader\<close>

text \<open>
  C4. The run on one mention of \<open>Amsterdam\<close>, one corpus line and one dump page without
  links writes a candidate whose links set is empty; the export writes it as \<open>set()\<close>, and
  the reader, which strips braces and splits at commas, returns the one link \<open>set()\<close>
  instead of no link.
\<close>

theorem empty_links_do_not_round_trip:
  "main [[''-DOCSTART-''],
         [''Amsterdam'', ''B-LOC'', ''Amsterdam'', ''Amsterdam'', ''url'', ''5042'', ''fid'']]
        [''The city [[Amsterdam|capital]] is busy'']
        [''<page><title>Amsterdam</title><id>5042</id>text</page>'']
   = Inr [[entity_line \<lparr>name = ''Amsterdam'', link = ''url'', wname = ''Amsterdam'',
                         fid = ''fid'', wid = ''5042'', candidates = []\<rparr>,
           candidate_line ((new_candidate ''amsterdam'' ''Amsterdam'')
              \<lparr>cand_id := Some ''5042'', popularity := Some 0\<rparr>)]]
   \<and> links ((new_candidate ''amsterdam'' ''Amsterdam'')
              \<lparr>cand_id := Some ''5042'', popularity := Some 0\<rparr>) = []
   \<and> Candidate_init (candidate_line ((new_candidate ''amsterdam'' ''Amsterdam'')
              \<lparr>cand_id := Some ''5042'', popularity := Some 0\<rparr>))
     = Inr \<lparr>p_id = ''5042'', p_in_count = 0, p_out_count = 0, p_links = [''set()''],
            p_url = ''https://nl.wikipedia.org/wiki/Amsterdam'', p_name = ''Amsterdam'',
            p_normal_name = ''amsterdam'', p_normal_wiki_title = ''amsterdam''\<rparr>"
  by code_simp

section \<open>Properties of the Entity Table Builder\<close>

text \<open>The first row of the corpus that is a gold mention and normalizes to the key \<open>k\<close>.\<close>

definition first_row :: "string \<Rightarrow> string list list \<Rightarrow> string list option" where
  "first_row k rows = find (\<lambda>row. is_mention row \<and> entity_dictname (row ! 2) = k) rows"

lemma extract_entities_rows_lookup:
  "extract_entities_rows rows ents = Inr res \<Longrightarrow>
   map_of res k = (case map_of ents k of Some e \<Rightarrow> Some e
      | None \<Rightarrow> (case first_row k rows of None \<Rightarrow> None
           | Some row \<Rightarrow> (case make_entity row of Inr e \<Rightarrow> Some e | Inl x \<Rightarrow> None)))"
proof (induction rows arbitrary: ents)
  case Nil
  then show ?case by (auto simp: first_row_def split: option.splits)
next
  case (Cons row rows)
  let ?d = "entity_dictname (row ! 2)"
  show ?case
  proof (cases "is_mention row \<and> ?d \<notin> keys ents")
    case False
    with Cons.prems have rec: "extract_entities_rows rows ents = Inr res"
      by (auto split: if_splits)
    have "map_of ents k = None \<Longrightarrow> first_row k (row # rows) = first_row k rows"
      using False by (auto simp: first_row_def in_keys_iff)
    with Cons.IH[OF rec] show ?thesis
      by (cases "map_of ents k") auto
  next
    case True
    with Cons.prems obtain ent where me: "make_entity row = Inr ent"
      and rec: "extract_entities_rows rows (AList.update ?d ent ents) = Inr res"
      by (auto split: sum.splits)
    show ?thesis
    proof (cases "?d = k")
      case same: True
      with True have "map_of ents k = None" by (simp add: in_keys_iff)
      moreover have "first_row k (row # rows) = Some row"
        using True same by (simp add: first_row_def)
      ultimately show ?thesis
        using Cons.IH[OF rec] me same by (simp add: update_conv')
    next
      case diff: False
      then have "first_row k (row # rows) = first_row k rows"
        by (simp add: first_row_def)
      then show ?thesis
        using Cons.IH[OF rec] diff by (cases "map_of ents k") (simp_all add: update_conv')
    qed
  qed
qed

text \<open>
  C7. The entity key of a gold-mention row is its name with the spaces removed, cut at the
  first \<open>(\<close> and lower-cased, so \<open>Lionel Messi (footballer)\<close> gives \<open>lionelmessi\<close>. Of
  the rows with one key the first wins: a later mention row whose key is already in the
  table leaves the table as it is, and the record stored under a key at the end is the one
  built from the first mention row with that key.
\<close>

theorem entity_key_first_occurrence_wins:
  assumes "extract_entities rows = Inr ents"
  shows "entity_dictname ''Lionel Messi (footballer)'' = ''lionelmessi''
    \<and> entity_dictname s = lower (takeWhile (\<lambda>c. c \<noteq> CHR ''('') (remove_spaces s))
    \<and> (is_mention row \<and> entity_dictname (row ! 2) \<in> keys table \<longrightarrow>
         extract_entities_rows (row # rest) table = extract_entities_rows rest table)
    \<and> map_of ents k = (case first_row k rows of None \<Rightarrow> None
         | Some r \<Rightarrow> (case make_entity r of Inr e \<Rightarrow> Some e | Inl x \<Rightarrow> None))"
proof -
  have ex: "entity_dictname ''Lionel Messi (footballer)'' = ''lionelmessi''"
    by code_simp
  have norm: "entity_dictname s = lower (takeWhile (\<lambda>c. c \<noteq> CHR ''('') (remove_spaces s))"
    by (simp add: entity_dictname_def hd_py_split_char)
  have lookup: "map_of ents k = (case first_row k rows of None \<Rightarrow> None
         | Some r \<Rightarrow> (case make_entity r of Inr e \<Rightarrow> Some e | Inl x \<Rightarrow> None))"
    using extract_entities_rows_lookup[of rows "[]" ents k] assms
    by (simp add: extract_entities_def)
  show ?thesis using ex norm lookup by simp
qed

theorem entity_key_first_occurrence_wins_witness:
  "\<exists>ents. extract_entities
      [[''Messi'', ''B-PER'', ''Lionel Messi (footballer)'', ''w1'', ''u1'', ''i1'', ''f1''],
       [''Lionel'', ''B-PER'', ''lionel messi'', ''w2'', ''u2'', ''i2'', ''f2'']] = Inr ents
    \<and> map_of ents ''lionelmessi'' =
        Some \<lparr>name = ''Lionel Messi (footballer)'', link = ''u1'', wname = ''w1'',
              fid = ''f1'', wid = ''i1'', candidates = []\<rparr>
    \<and> extract_entities_rows
        [[''Lionel'', ''B-PER'', ''lionel messi'', ''w2'', ''u2'', ''i2'', ''f2'']] ents = Inr ents"
proof -
  let ?r1 = "[''Messi'', ''B-PER'', ''Lionel Messi (footballer)'', ''w1'', ''u1'', ''i1'', ''f1'']"
  let ?r2 = "[''Lionel'', ''B-PER'', ''lionel messi'', ''w2'', ''u2'', ''i2'', ''f2'']"
  let ?e1 = "\<lparr>name = ''Lionel Messi (footballer)'', link = ''u1'', wname = ''w1'',
              fid = ''f1'', wid = ''i1'', candidates = []\<rparr>"
  have run: "extract_entities [?r1, ?r2] = Inr [(''lionelmessi'', ?e1)]"
    by code_simp
  have fr: "first_row ''lionelmessi'' [?r1, ?r2] = Some ?r1"
    by code_simp
  have me: "make_entity ?r1 = Inr ?e1"
    by code_simp
  have dup: "is_mention ?r2 \<and> entity_dictname (?r2 ! 2) \<in> keys [(''lionelmessi'', ?e1)]"
    by code_simp
  note inst = entity_key_first_occurrence_wins[OF run,
      of _ ?r2 "[(''lionelmessi'', ?e1)]" "[]" "''lionelmessi''"]
  from inst fr me have "map_of [(''lionelmessi'', ?e1)] ''lionelmessi'' = Some ?e1"
    by simp
  moreover from inst dup
  have "extract_entities_rows [?r2] [(''lionelmessi'', ?e1)] = Inr [(''lionelmessi'', ?e1)]"
    by simp
  ultimately show ?thesis using run by blast
qed

text \<open>
  C3. A row with five fields whose second field is \<open>B-PER\<close> passes the length test
  \<open>len(row) > 4\<close>; its key is new, so the builder reads \<open>row[6]\<close> and raises IndexError
  instead of skipping the row.
\<close>

theorem short_mention_row_raises:
  "extract_entities [[''tok'', ''B-PER'', ''Foo'', ''Foo'', ''http://x'']] = Inl IndexError"
  by code_simp

end
